theory Spec2Isabelle
  imports Main
begin

section \<open>The ledger of \<open>src/utils/blockchain.js\<close>\<close>

text \<open>
  The class \<open>BlockchainUtils\<close> keeps a chain of blocks, a pool of pending transactions
  and a mining difficulty in the fields of one object. The model passes that object
  explicitly: every method takes the ledger and returns the ledger it leaves behind,
  next to its result. A method that throws returns \<open>Inl\<close> of the error; the mining loop,
  which may run forever, returns \<open>None\<close> when it does. Every reading of \<open>Date.now()\<close> is
  an argument of the method that reads it.
\<close>

subsection \<open>Values\<close>

text \<open>
  The payloads of a transaction (\<open>data\<close>, \<open>metadata\<close>) are opaque structured values.
  Numbers are integers here: the ledger itself only produces indices, nonces and
  millisecond timestamps.
\<close>

datatype json =
    JNull
  | JBool bool
  | JNum int
  | JStr string
  | JArr "json list"
  | JObj "(string \<times> json) list"

text \<open>JavaScript's truthiness; a property that is absent reads as \<open>undefined\<close>, which is falsy.\<close>

fun truthy :: "json \<Rightarrow> bool" where
  "truthy JNull = False"
| "truthy (JBool b) = b"
| "truthy (JNum n) = (n \<noteq> 0)"
| "truthy (JStr s) = (s \<noteq> [])"
| "truthy (JArr _) = True"
| "truthy (JObj _) = True"

datatype error =
    InvalidTransaction   \<comment> \<open>\<open>Error('Transaction invalide')\<close>\<close>
  | InvalidFormat        \<comment> \<open>\<open>Error('Format de blockchain invalide')\<close>\<close>
  | CorruptedChain       \<comment> \<open>\<open>Error('Chaine importee corrompue')\<close>\<close>
  | TypeError            \<comment> \<open>reading a property of \<open>undefined\<close>\<close>
  | RangeError           \<comment> \<open>\<open>String.prototype.repeat\<close> with a negative count\<close>

text \<open>
  A transaction is an object whose properties \<open>type\<close>, \<open>signedBy\<close>, \<open>data\<close>, \<open>hash\<close>,
  \<open>timestamp\<close> and \<open>blockNumber\<close> the ledger reads or writes; \<open>None\<close> is a property that
  is absent (for \<open>blockNumber\<close>: absent or \<open>null\<close>). The properties the ledger never
  looks at (\<open>id\<close>, \<open>metadata\<close>, \<open>status\<close>, \<open>projectId\<close>, ...) are kept in \<open>others\<close>.
\<close>

record transaction =
  tx_type :: "string option"
  signedBy :: "string option"
  tx_data :: "json option"
  tx_hash :: "string option"
  tx_timestamp :: "int option"
  blockNumber :: "int option"
  others :: "(string \<times> json) list"

record block =
  index :: int
  timestamp :: int
  transactions :: "transaction list"
  previousHash :: string
  hash :: string
  nonce :: int

record ledger =
  difficulty :: int
  pendingTransactions :: "transaction list"
  chain :: "block list"

subsection \<open>Strings: numbers, JSON text, \<open>substring\<close> and \<open>repeat\<close>\<close>

definition digit_char :: "nat \<Rightarrow> char" where
  "digit_char d = char_of (of_char (CHR ''0'') + d)"

fun nat_digits :: "nat \<Rightarrow> nat \<Rightarrow> string" where
  "nat_digits 0 n = []"
| "nat_digits (Suc fuel) n =
     (if n < 10 then [digit_char n] else nat_digits fuel (n div 10) @ [digit_char (n mod 10)])"

definition Number_toString :: "int \<Rightarrow> string" where
  "Number_toString n =
     (if n < 0 then CHR ''-'' # nat_digits (Suc (nat (- n))) (nat (- n))
      else nat_digits (Suc (nat n)) (nat n))"

definition hex_char :: "nat \<Rightarrow> char" where
  "hex_char d = (if d < 10 then digit_char d else char_of (of_char (CHR ''a'') + (d - 10)))"

definition quote_char :: "char \<Rightarrow> string" where
  "quote_char c =
     (let n = (of_char c :: nat) in
      if n = 0x22 then [CHR 0x5C, CHR 0x22]
      else if n = 0x5C then [CHR 0x5C, CHR 0x5C]
      else if n = 8 then [CHR 0x5C, CHR ''b'']
      else if n = 9 then [CHR 0x5C, CHR ''t'']
      else if n = 10 then [CHR 0x5C, CHR ''n'']
      else if n = 12 then [CHR 0x5C, CHR ''f'']
      else if n = 13 then [CHR 0x5C, CHR ''r'']
      else if n < 32 then [CHR 0x5C, CHR ''u'', CHR ''0'', CHR ''0'', hex_char (n div 16), hex_char (n mod 16)]
      else [c])"

definition quote :: "string \<Rightarrow> string" where
  "quote s = CHR 0x22 # concat (map quote_char s) @ [CHR 0x22]"

fun join :: "string \<Rightarrow> string list \<Rightarrow> string" where
  "join sep [] = []"
| "join sep [x] = x"
| "join sep (x # y # ys) = x @ sep @ join sep (y # ys)"

text \<open>\<open>JSON.stringify\<close> of a value, without indentation.\<close>

fun JSON_stringify :: "json \<Rightarrow> string" where
  "JSON_stringify JNull = ''null''"
| "JSON_stringify (JBool b) = (if b then ''true'' else ''false'')"
| "JSON_stringify (JNum n) = Number_toString n"
| "JSON_stringify (JStr s) = quote s"
| "JSON_stringify (JArr vs) = ''['' @ join '','' (map JSON_stringify vs) @ '']''"
| "JSON_stringify (JObj kvs) =
     ''{'' @ join '','' (map (\<lambda>(k, v). quote k @ '':'' @ JSON_stringify v) kvs) @ ''}''"

text \<open>
  The object a transaction is, as a JSON value: the properties that are present, and
  \<open>blockNumber\<close>, which \<open>addTransaction\<close> sets to \<open>null\<close>.
\<close>

definition present :: "string \<Rightarrow> ('a \<Rightarrow> json) \<Rightarrow> 'a option \<Rightarrow> (string \<times> json) list" where
  "present k f v = (case v of None \<Rightarrow> [] | Some x \<Rightarrow> [(k, f x)])"

definition tx_json :: "transaction \<Rightarrow> json" where
  "tx_json tx = JObj
     (present ''type'' JStr (tx_type tx) @ present ''signedBy'' JStr (signedBy tx)
      @ present ''data'' id (tx_data tx) @ others tx
      @ present ''hash'' JStr (tx_hash tx) @ present ''timestamp'' JNum (tx_timestamp tx)
      @ [(''blockNumber'', case blockNumber tx of None \<Rightarrow> JNull | Some n \<Rightarrow> JNum n)])"

text \<open>\<open>s.substring(a, b)\<close>: both ends are clamped to the string and swapped when out of order.\<close>

definition substring :: "string \<Rightarrow> int \<Rightarrow> int \<Rightarrow> string" where
  "substring s a b =
     (let n = int (length s);
          a' = max 0 (min a n);
          b' = max 0 (min b n)
      in take (nat (max a' b' - min a' b')) (drop (nat (min a' b')) s))"

text \<open>\<open>s.repeat(n)\<close> throws a \<open>RangeError\<close> when \<open>n\<close> is negative.\<close>

definition repeat :: "string \<Rightarrow> int \<Rightarrow> error + string" where
  "repeat s n = (if n < 0 then Inl RangeError else Inr (concat (replicate (nat n) s)))"

subsection \<open>The hash engine\<close>

text \<open>
  Node's \<open>crypto.createHash(algorithm)\<close> makes a \<open>Hash\<close> object, and \<open>hash.update(data)\<close>
  feeds it \<open>data\<close> and returns the same object, for chaining. The digest is read with
  \<open>hash.digest(encoding)\<close>. The source does not call \<open>digest\<close>: it calls
  \<open>toString('hex')\<close> on the \<open>Hash\<close> object. \<open>Hash\<close> defines no \<open>toString\<close> of its own, so
  the call is \<open>Object.prototype.toString\<close>, which takes no argument and returns the text
  \<open>[object Object]\<close> for every such object.
\<close>

record Hash =
  algorithm :: string
  fed :: string

definition createHash :: "string \<Rightarrow> Hash" where
  "createHash alg = \<lparr>algorithm = alg, fed = []\<rparr>"

definition Hash_update :: "Hash \<Rightarrow> string \<Rightarrow> Hash" where
  "Hash_update h d = h\<lparr>fed := fed h @ d\<rparr>"

definition Hash_toString :: "Hash \<Rightarrow> string \<Rightarrow> string" where
  "Hash_toString h encoding = ''[object Object]''"

text \<open>
  \<open>calculateHash(index, timestamp, transactions, previousHash, nonce = 0)\<close>. In
  \<open>index + timestamp + JSON.stringify(...)\<close> the first \<open>+\<close> adds two numbers and the
  others concatenate strings.
\<close>

definition calculateHash :: "int \<Rightarrow> int \<Rightarrow> transaction list \<Rightarrow> string \<Rightarrow> int \<Rightarrow> string" where
  "calculateHash index' timestamp' transactions' previousHash' nonce' =
     (let data = Number_toString (index' + timestamp')
                 @ JSON_stringify (JArr (map tx_json transactions'))
                 @ previousHash' @ Number_toString nonce'
      in Hash_toString (Hash_update (createHash ''sha256'') data) ''hex'')"

text \<open>
  \<open>generateTransactionHash(transaction)\<close>, with the reading of \<open>Date.now()\<close> as \<open>now\<close>. A
  property that is absent concatenates as the text \<open>undefined\<close>.
\<close>

definition or_undefined :: "string option \<Rightarrow> string" where
  "or_undefined v = (case v of None \<Rightarrow> ''undefined'' | Some s \<Rightarrow> s)"

definition generateTransactionHash :: "transaction \<Rightarrow> int \<Rightarrow> string" where
  "generateTransactionHash transaction now =
     (let data = or_undefined (tx_type transaction) @ or_undefined (signedBy transaction)
                 @ or_undefined (map_option JSON_stringify (tx_data transaction))
                 @ Number_toString now
      in Hash_toString (Hash_update (createHash ''sha256'') data) ''hex'')"

subsection \<open>Construction, mining\<close>

definition createGenesisBlock :: "ledger \<Rightarrow> int \<Rightarrow> int \<Rightarrow> ledger" where
  "createGenesisBlock s now1 now2 =
     (let genesisBlock =
            \<lparr>index = 0, timestamp = now1, transactions = [], previousHash = ''0'',
             hash = calculateHash 0 now2 [] ''0'' 0, nonce = 0\<rparr>
      in s\<lparr>chain := chain s @ [genesisBlock]\<rparr>)"

definition constructor :: "int \<Rightarrow> int \<Rightarrow> ledger" where
  "constructor now1 now2 =
     createGenesisBlock \<lparr>difficulty = 4, pendingTransactions = [], chain = []\<rparr> now1 now2"

text \<open>\<open>this.chain[this.chain.length - 1]\<close> is \<open>undefined\<close> on an empty chain.\<close>

definition getLatestBlock :: "ledger \<Rightarrow> block option" where
  "getLatestBlock s = (if chain s = [] then None else Some (last (chain s)))"

text \<open>
  The proof-of-work loop \<open>do { newHash = ...; nonce++ } while (...)\<close>. It returns the
  hash and the nonce as the loop leaves them: the nonce has been incremented after the
  hash was computed. \<open>None\<close> is the loop that never ends.
\<close>

partial_function (option) proofOfWork ::
  "int \<Rightarrow> int \<Rightarrow> int \<Rightarrow> transaction list \<Rightarrow> string \<Rightarrow> int \<Rightarrow> (error + string \<times> int) option" where
  "proofOfWork d newIndex newTimestamp txs prevHash nonce' =
     (case repeat ''0'' d of
        Inl e \<Rightarrow> Some (Inl e)
      | Inr zeros \<Rightarrow>
          if substring (calculateHash newIndex newTimestamp txs prevHash nonce') 0 d \<noteq> zeros
          then proofOfWork d newIndex newTimestamp txs prevHash (nonce' + 1)
          else Some (Inr (calculateHash newIndex newTimestamp txs prevHash nonce', nonce' + 1)))"

declare proofOfWork.simps [code]

text \<open>
  \<open>mineBlock(transactions)\<close>, with the reading of \<open>Date.now()\<close> as \<open>now\<close>. On an empty
  chain \<open>previousBlock\<close> is \<open>undefined\<close> and \<open>previousBlock.index\<close> throws. Nothing is
  written to the ledger before the loop has ended.
\<close>

definition mineBlock :: "ledger \<Rightarrow> int \<Rightarrow> transaction list \<Rightarrow> ((error + block) \<times> ledger) option" where
  "mineBlock s now transactions' =
     (case getLatestBlock s of
        None \<Rightarrow> Some (Inl TypeError, s)
      | Some previousBlock \<Rightarrow>
          (case proofOfWork (difficulty s) (index previousBlock + 1) now transactions'
                  (hash previousBlock) 0 of
             None \<Rightarrow> None
           | Some (Inl e) \<Rightarrow> Some (Inl e, s)
           | Some (Inr (newHash, nonce')) \<Rightarrow>
               (let newBlock =
                      \<lparr>index = index previousBlock + 1, timestamp = now,
                       transactions = transactions', previousHash = hash previousBlock,
                       hash = newHash, nonce = nonce'\<rparr>
                in Some (Inr newBlock, s\<lparr>chain := chain s @ [newBlock]\<rparr>))))"

subsection \<open>Submission\<close>

text \<open>\<open>!x\<close> for a property that holds a string, and for one that holds any value.\<close>

definition falsy_string :: "string option \<Rightarrow> bool" where
  "falsy_string v = (case v of None \<Rightarrow> True | Some s \<Rightarrow> s = [])"

definition falsy :: "json option \<Rightarrow> bool" where
  "falsy v = (case v of None \<Rightarrow> True | Some x \<Rightarrow> \<not> truthy x)"

definition verifySignature :: "transaction \<Rightarrow> bool" where
  "verifySignature transaction = True"

text \<open>
  \<open>transactionExists(hash)\<close>: the \<open>for ... of\<close> loop over the chain, then the pool. The
  argument is \<open>None\<close> when the caller passes \<open>undefined\<close>, and \<open>===\<close> holds between two
  \<open>undefined\<close>.
\<close>

fun existsInBlocks :: "block list \<Rightarrow> string option \<Rightarrow> bool" where
  "existsInBlocks [] h = False"
| "existsInBlocks (block # rest) h =
     (if list_ex (\<lambda>tx. tx_hash tx = h) (transactions block) then True
      else existsInBlocks rest h)"

definition transactionExists :: "ledger \<Rightarrow> string option \<Rightarrow> bool" where
  "transactionExists s h =
     (if existsInBlocks (chain s) h then True
      else list_ex (\<lambda>tx. tx_hash tx = h) (pendingTransactions s))"

definition isValidTransaction :: "ledger \<Rightarrow> transaction \<Rightarrow> bool" where
  "isValidTransaction s transaction =
     (if falsy_string (tx_type transaction) \<or> falsy_string (signedBy transaction)
         \<or> falsy (tx_data transaction) then False
      else if \<not> verifySignature transaction then False
      else if transactionExists s (tx_hash transaction) then False
      else True)"

text \<open>
  \<open>addTransaction(transaction)\<close>; \<open>nowH\<close> is the clock read inside
  \<open>generateTransactionHash\<close>, \<open>nowT\<close> the one read for \<open>transaction.timestamp\<close>. The
  source writes the three properties into the caller's object and pushes that object;
  the model returns the object as written.
\<close>

definition addTransaction ::
  "ledger \<Rightarrow> int \<Rightarrow> int \<Rightarrow> transaction \<Rightarrow> (error + transaction) \<times> ledger" where
  "addTransaction s nowH nowT transaction =
     (if \<not> isValidTransaction s transaction then (Inl InvalidTransaction, s)
      else
        (let t1 = transaction\<lparr>tx_hash := Some (generateTransactionHash transaction nowH)\<rparr>;
             t2 = t1\<lparr>tx_timestamp := Some nowT\<rparr>;
             t3 = t2\<lparr>blockNumber := None\<rparr>
         in (Inr t3, s\<lparr>pendingTransactions := pendingTransactions s @ [t3]\<rparr>)))"

subsection \<open>Queries\<close>

record tx_status =
  status :: string
  st_blockNumber :: "int option"
  confirmations :: int
  st_timestamp :: "int option"
  st_hash :: "string option"

text \<open>
  \<open>getTransactionStatus(transactionHash)\<close>: the loop over the chain carries the whole
  chain for \<open>this.chain.length\<close>. The result \<open>None\<close> is the \<open>null\<close> the source returns.
\<close>

fun statusInBlocks :: "block list \<Rightarrow> block list \<Rightarrow> string option \<Rightarrow> tx_status option" where
  "statusInBlocks all [] h = None"
| "statusInBlocks all (block # rest) h =
     (case find (\<lambda>tx. tx_hash tx = h) (transactions block) of
        Some transaction \<Rightarrow>
          Some \<lparr>status = ''confirmed'', st_blockNumber = Some (index block),
                confirmations = int (length all) - index block,
                st_timestamp = Some (timestamp block), st_hash = Some (hash block)\<rparr>
      | None \<Rightarrow> statusInBlocks all rest h)"

definition getTransactionStatus :: "ledger \<Rightarrow> string option \<Rightarrow> tx_status option" where
  "getTransactionStatus s transactionHash =
     (case statusInBlocks (chain s) (chain s) transactionHash of
        Some r \<Rightarrow> Some r
      | None \<Rightarrow>
          (case find (\<lambda>tx. tx_hash tx = transactionHash) (pendingTransactions s) of
             Some pendingTx \<Rightarrow>
               Some \<lparr>status = ''pending'', st_blockNumber = None, confirmations = 0,
                     st_timestamp = tx_timestamp pendingTx, st_hash = None\<rparr>
           | None \<Rightarrow> None))"

text \<open>\<open>isChainValid()\<close>: the loop \<open>for (let i = 1; i < this.chain.length; i++)\<close>.\<close>

function validFrom :: "block list \<Rightarrow> nat \<Rightarrow> bool" where
  "validFrom c i =
     (if i < length c then
        (let currentBlock = c ! i; previousBlock = c ! (i - 1) in
         if previousHash currentBlock \<noteq> hash previousBlock then False
         else if hash currentBlock \<noteq>
                 calculateHash (index currentBlock) (timestamp currentBlock)
                   (transactions currentBlock) (previousHash currentBlock) (nonce currentBlock)
         then False
         else validFrom c (i + 1))
      else True)"
  by pat_completeness auto
termination
  by (relation "measure (\<lambda>(c, i). length c - i)") auto

declare validFrom.simps [simp del]

definition isChainValid :: "ledger \<Rightarrow> bool" where
  "isChainValid s = validFrom (chain s) 1"

subsection \<open>Cleanup, export, import\<close>

text \<open>
  \<open>cleanupOldPendingTransactions(maxAgeInHours)\<close>; a transaction without a timestamp
  compares as \<open>undefined > cutoffTime\<close>, which is false.
\<close>

definition cleanupOldPendingTransactions :: "ledger \<Rightarrow> int \<Rightarrow> int \<Rightarrow> int \<times> ledger" where
  "cleanupOldPendingTransactions s now maxAgeInHours =
     (let cutoffTime = now - maxAgeInHours * 60 * 60 * 1000;
          initialCount = int (length (pendingTransactions s));
          kept = filter (\<lambda>tx. case tx_timestamp tx of None \<Rightarrow> False | Some t \<Rightarrow> t > cutoffTime)
                   (pendingTransactions s)
      in (initialCount - int (length kept), s\<lparr>pendingTransactions := kept\<rparr>))"

text \<open>
  A snapshot is whatever object the caller hands to \<open>importBlockchain\<close>. Its \<open>chain\<close>
  property may be absent, may hold a value that is not an array, or may hold an array
  of blocks; \<open>pendingTransactions\<close> and \<open>difficulty\<close> may be absent.
\<close>

datatype plain = PNull | PBool bool | PNum int | PStr string | PObject

datatype chain_field = Absent | NotArray plain | Array "block list"

fun truthy_plain :: "plain \<Rightarrow> bool" where
  "truthy_plain PNull = False"
| "truthy_plain (PBool b) = b"
| "truthy_plain (PNum n) = (n \<noteq> 0)"
| "truthy_plain (PStr s) = (s \<noteq> [])"
| "truthy_plain PObject = True"

fun truthy_chain :: "chain_field \<Rightarrow> bool" where
  "truthy_chain Absent = False"
| "truthy_chain (NotArray v) = truthy_plain v"
| "truthy_chain (Array c) = True"

fun isArray :: "chain_field \<Rightarrow> bool" where
  "isArray (Array c) = True"
| "isArray _ = False"

record snapshot =
  snap_chain :: chain_field
  snap_pendingTransactions :: "transaction list option"
  snap_difficulty :: "int option"
  exportedAt :: "int option"
  version :: "string option"

definition exportBlockchain :: "ledger \<Rightarrow> int \<Rightarrow> snapshot" where
  "exportBlockchain s now =
     \<lparr>snap_chain = Array (chain s), snap_pendingTransactions = Some (pendingTransactions s),
      snap_difficulty = Some (difficulty s), exportedAt = Some now, version = Some ''1.0.0''\<rparr>"

text \<open>The linkage loop of \<open>importBlockchain\<close>; \<open>Some e\<close> is the error it throws.\<close>

function linkageFrom :: "block list \<Rightarrow> nat \<Rightarrow> error option" where
  "linkageFrom tempChain i =
     (if i < length tempChain then
        (let currentBlock = tempChain ! i; previousBlock = tempChain ! (i - 1) in
         if previousHash currentBlock \<noteq> hash previousBlock then Some CorruptedChain
         else linkageFrom tempChain (i + 1))
      else None)"
  by pat_completeness auto
termination
  by (relation "measure (\<lambda>(c, i). length c - i)") auto

declare linkageFrom.simps [simp del]

text \<open>
  \<open>importBlockchain(data)\<close>. \<open>data.pendingTransactions || []\<close> and
  \<open>data.difficulty || this.difficulty\<close> take the right operand when the left one is
  absent, and also when the difficulty is \<open>0\<close>. Both throws come before the first
  assignment.
\<close>

definition importBlockchain :: "ledger \<Rightarrow> snapshot \<Rightarrow> (error + bool) \<times> ledger" where
  "importBlockchain s data =
     (if \<not> truthy_chain (snap_chain data) \<or> \<not> isArray (snap_chain data)
      then (Inl InvalidFormat, s)
      else
        (case snap_chain data of
           Array tempChain \<Rightarrow>
             (case linkageFrom tempChain 1 of
                Some e \<Rightarrow> (Inl e, s)
              | None \<Rightarrow>
                  (Inr True,
                   s\<lparr>chain := tempChain,
                     pendingTransactions :=
                       (case snap_pendingTransactions data of Some p \<Rightarrow> p | None \<Rightarrow> []),
                     difficulty :=
                       (case snap_difficulty data of
                          Some d \<Rightarrow> if d \<noteq> 0 then d else difficulty s
                        | None \<Rightarrow> difficulty s)\<rparr>))
         | _ \<Rightarrow> (Inl InvalidFormat, s)))"

subsection \<open>The invariant of the chain, in the specification's words\<close>

text \<open>
  Block \<open>i\<close> of a chain is linked and sealed when its \<open>previousHash\<close> is the hash of the
  block before it and the hash recomputed from its own stored fields is its stored
  hash. The invariant asks this of every \<open>i > 0\<close>.
\<close>

definition linked_and_sealed :: "block list \<Rightarrow> nat \<Rightarrow> bool" where
  "linked_and_sealed c i \<longleftrightarrow>
     previousHash (c ! i) = hash (c ! (i - 1))
     \<and> calculateHash (index (c ! i)) (timestamp (c ! i)) (transactions (c ! i))
          (previousHash (c ! i)) (nonce (c ! i)) = hash (c ! i)"

definition chain_invariant :: "block list \<Rightarrow> bool" where
  "chain_invariant c \<longleftrightarrow> list_all (linked_and_sealed c) [1..<length c]"

text \<open>
  A chain has a broken link when some block after the first does not carry the hash
  of the block before it.
\<close>

definition broken_link :: "block list \<Rightarrow> nat \<Rightarrow> bool" where
  "broken_link c i \<longleftrightarrow> previousHash (c ! i) \<noteq> hash (c ! (i - 1))"

definition some_broken_link :: "block list \<Rightarrow> bool" where
  "some_broken_link c \<longleftrightarrow> list_ex (broken_link c) [1..<length c]"

text \<open>
  The block a transaction hash is found in is the first block of the chain that holds
  a transaction with that hash; the status reported for it is \<open>confirmed\<close>, with that
  block's index, timestamp and hash, and the length of the chain less the index.
\<close>

definition containing_block :: "block list \<Rightarrow> string option \<Rightarrow> block option" where
  "containing_block c h = find (\<lambda>b. list_ex (\<lambda>tx. tx_hash tx = h) (transactions b)) c"

definition confirmed_in :: "block list \<Rightarrow> block \<Rightarrow> tx_status" where
  "confirmed_in c b =
     \<lparr>status = ''confirmed'', st_blockNumber = Some (index b),
      confirmations = int (length c) - index b,
      st_timestamp = Some (timestamp b), st_hash = Some (hash b)\<rparr>"

section \<open>Sample ledgers\<close>

text \<open>
  The genesis block a ledger constructed at time \<open>0\<close> holds, and the transaction of the
  specification's concrete scenario, as a caller builds it: without \<open>hash\<close>,
  \<open>timestamp\<close> or \<open>blockNumber\<close>.
\<close>

definition genesis0 :: block where
  "genesis0 = \<lparr>index = 0, timestamp = 0, transactions = [], previousHash = ''0'',
               hash = ''[object Object]'', nonce = 0\<rparr>"

definition tx0 :: transaction where
  "tx0 = \<lparr>tx_type = Some ''project_submission'', signedBy = Some ''user1'',
          tx_data = Some (JObj [(''amount'', JNum 100)]), tx_hash = None,
          tx_timestamp = None, blockNumber = None, others = []\<rparr>"

text \<open>
  The same transaction as \<open>addTransaction\<close> admits it at time \<open>5\<close>, a block sealing it at
  time \<open>7\<close>, and a ledger constructed at time \<open>0\<close> whose \<open>difficulty\<close> field has been set
  to \<open>0\<close>, the one difficulty at which mining returns.
\<close>

definition tx0_admitted :: transaction where
  "tx0_admitted = tx0\<lparr>tx_hash := Some ''[object Object]'', tx_timestamp := Some 5, blockNumber := None\<rparr>"

definition block1 :: block where
  "block1 = \<lparr>index = 1, timestamp = 7, transactions = [tx0_admitted],
             previousHash = ''[object Object]'', hash = ''[object Object]'', nonce = 1\<rparr>"

definition ledger0 :: ledger where
  "ledger0 = \<lparr>difficulty = 0, pendingTransactions = [], chain = [genesis0]\<rparr>"

text \<open>
  A snapshot whose second block is linked to the first but carries a hash that is not
  the one recomputed from its fields.
\<close>

definition unsealed1 :: block where
  "unsealed1 = block1\<lparr>hash := ''0000ffff''\<rparr>"

definition snapshot0 :: snapshot where
  "snapshot0 = \<lparr>snap_chain = Array [genesis0, unsealed1],
                snap_pendingTransactions = Some [tx0_admitted], snap_difficulty = Some 2,
                exportedAt = Some 9, version = Some ''1.0.0''\<rparr>"

text \<open>The snapshot \<open>{chain: []}\<close>.\<close>

definition empty_snapshot :: snapshot where
  "empty_snapshot = \<lparr>snap_chain = Array [], snap_pendingTransactions = None,
                     snap_difficulty = None, exportedAt = None, version = None\<rparr>"

text \<open>The sixteen characters of a hexadecimal digest.\<close>

definition is_hex :: "char \<Rightarrow> bool" where
  "is_hex c \<longleftrightarrow> c \<in> set ''0123456789abcdef''"

section \<open>What the hash engine returns\<close>

lemma calculateHash_const: "calculateHash i t txs p n = ''[object Object]''"
  by (simp add: calculateHash_def Hash_toString_def)

lemma generateTransactionHash_const: "generateTransactionHash tx now = ''[object Object]''"
  by (simp add: generateTransactionHash_def Hash_toString_def)

section \<open>The proof-of-work loop\<close>

text \<open>
  With a positive difficulty the loop compares a prefix of \<open>[object Object]\<close>, which
  starts with a bracket, with a string of zeros.
\<close>

lemma prefix_ne:
  assumes d: "0 < d"
  shows "substring ''[object Object]'' 0 d \<noteq> concat (replicate (nat d) ''0'')"
proof -
  from d obtain k where k: "nat d = Suc k" by (cases "nat d") auto
  have "hd (concat (replicate (nat d) ''0'')) = CHR ''0''" by (simp add: k)
  moreover have "hd (substring ''[object Object]'' 0 d) = CHR ''[''"
    using d by (cases "d < 15") (simp_all add: substring_def Let_def min_def max_def k)
  ultimately show ?thesis by auto
qed

lemma proofOfWork_returns_only_at_0:
  assumes "proofOfWork d ni nt txs ph n = Some y"
  shows "\<not> 0 < d"
proof (rule proofOfWork.raw_induct [where P = "\<lambda>d _ _ _ _ _ _. \<not> 0 < d", OF _ assms])
  fix f :: "int \<Rightarrow> int \<Rightarrow> int \<Rightarrow> transaction list \<Rightarrow> string \<Rightarrow> int \<Rightarrow> (error + string \<times> int) option"
  fix d ni nt txs ph n y
  assume IH: "\<And>d ni nt txs ph n y. f d ni nt txs ph n = Some y \<Longrightarrow> \<not> 0 < d"
  assume body: "(case repeat ''0'' d of Inl e \<Rightarrow> Some (Inl e)
      | Inr zeros \<Rightarrow>
          if substring (calculateHash ni nt txs ph n) 0 d \<noteq> zeros
          then f d ni nt txs ph (n + 1)
          else Some (Inr (calculateHash ni nt txs ph n, n + 1))) = Some y"
  show "\<not> 0 < d"
  proof
    assume d: "0 < d"
    from d prefix_ne [OF d] body have "f d ni nt txs ph (n + 1) = Some y"
      by (simp add: repeat_def calculateHash_const)
    with IH d show False by blast
  qed
qed

lemma proofOfWork_pos: "0 < d \<Longrightarrow> proofOfWork d ni nt txs ph n = None"
  using proofOfWork_returns_only_at_0 [of d ni nt txs ph n]
  by (cases "proofOfWork d ni nt txs ph n") auto

lemma proofOfWork_zero:
  "proofOfWork 0 ni nt txs ph n = Some (Inr (''[object Object]'', n + 1))"
  by (subst proofOfWork.simps) (simp add: repeat_def substring_def calculateHash_const)

lemma proofOfWork_neg: "d < 0 \<Longrightarrow> proofOfWork d ni nt txs ph n = Some (Inl RangeError)"
  by (subst proofOfWork.simps) (simp add: repeat_def)

text \<open>
  Every outcome of \<open>mineBlock\<close>: a \<open>TypeError\<close> on an empty chain, a \<open>RangeError\<close>
  with a negative difficulty, a loop that never ends with a positive one, and a new
  block at difficulty \<open>0\<close>.
\<close>

lemma mineBlock_outcome:
  "mineBlock s now txs =
     (if chain s = [] then Some (Inl TypeError, s)
      else if difficulty s < 0 then Some (Inl RangeError, s)
      else if 0 < difficulty s then None
      else Some (Inr \<lparr>index = index (last (chain s)) + 1, timestamp = now, transactions = txs,
                       previousHash = hash (last (chain s)), hash = ''[object Object]'', nonce = 1\<rparr>,
                 s\<lparr>chain := chain s @
                      [\<lparr>index = index (last (chain s)) + 1, timestamp = now, transactions = txs,
                        previousHash = hash (last (chain s)), hash = ''[object Object]'', nonce = 1\<rparr>]\<rparr>))"
proof -
  consider "difficulty s < 0" | "difficulty s = 0" | "0 < difficulty s" by linarith
  then show ?thesis
    by cases (simp_all add: mineBlock_def Let_def getLatestBlock_def proofOfWork_neg proofOfWork_zero
        proofOfWork_pos)
qed

section \<open>\<open>isChainValid\<close> and the invariant\<close>

lemma validFrom_unfold:
  "validFrom c i \<longleftrightarrow> (i < length c \<longrightarrow> linked_and_sealed c i \<and> validFrom c (i + 1))"
  by (subst validFrom.simps) (simp add: linked_and_sealed_def Let_def eq_commute)

lemma validFrom_iff:
  "validFrom c i \<longleftrightarrow> (\<forall>j. i \<le> j \<and> j < length c \<longrightarrow> linked_and_sealed c j)"
proof (induction "length c - i" arbitrary: i)
  case 0
  then show ?case by (subst validFrom_unfold) auto
next
  case (Suc k)
  then have lt: "i < length c" and k: "k = length c - (i + 1)" by simp_all
  have step: "validFrom c (i + 1) \<longleftrightarrow>
      (\<forall>j. i + 1 \<le> j \<and> j < length c \<longrightarrow> linked_and_sealed c j)"
    by (rule Suc.hyps(1) [OF k])
  show ?case
  proof
    assume "validFrom c i"
    with lt have now: "linked_and_sealed c i" and later: "validFrom c (i + 1)"
      by (subst (asm) validFrom_unfold, simp)+
    show "\<forall>j. i \<le> j \<and> j < length c \<longrightarrow> linked_and_sealed c j"
    proof (intro allI impI)
      fix j assume j: "i \<le> j \<and> j < length c"
      show "linked_and_sealed c j"
      proof (cases "j = i")
        case True
        with now show ?thesis by simp
      next
        case False
        with j have "i + 1 \<le> j \<and> j < length c" by simp
        with later step show ?thesis by blast
      qed
    qed
  next
    assume all: "\<forall>j. i \<le> j \<and> j < length c \<longrightarrow> linked_and_sealed c j"
    with lt have "linked_and_sealed c i" by simp
    moreover from all have "validFrom c (i + 1)" unfolding step by auto
    ultimately show "validFrom c i" by (subst validFrom_unfold) simp
  qed
qed

lemma chain_invariant_iff:
  "chain_invariant c \<longleftrightarrow> (\<forall>i. 0 < i \<and> i < length c \<longrightarrow> linked_and_sealed c i)"
  by (auto simp: chain_invariant_def list_all_iff)

lemma isChainValid_iff: "isChainValid s \<longleftrightarrow> chain_invariant (chain s)"
  by (auto simp: isChainValid_def validFrom_iff chain_invariant_iff)

section \<open>Mining\<close>

lemma chain_invariant_append:
  assumes inv: "chain_invariant c" and ne: "c \<noteq> []"
    and link: "previousHash b = hash (last c)"
    and seal: "calculateHash (index b) (timestamp b) (transactions b) (previousHash b) (nonce b) = hash b"
  shows "chain_invariant (c @ [b])"
  unfolding chain_invariant_iff
proof (intro allI impI)
  fix i assume i: "0 < i \<and> i < length (c @ [b])"
  show "linked_and_sealed (c @ [b]) i"
  proof (cases "i < length c")
    case True
    with i inv have "linked_and_sealed c i" by (simp add: chain_invariant_iff)
    with True i show ?thesis by (auto simp: linked_and_sealed_def nth_append)
  next
    case False
    with i have "i = length c" by simp
    with ne link seal show ?thesis
      by (simp add: linked_and_sealed_def nth_append last_conv_nth)
  qed
qed

lemma mineBlock_keeps_invariant:
  assumes inv: "chain_invariant (chain s)" and run: "mineBlock s now txs = Some (r, s')"
  shows "chain_invariant (chain s')"
proof (cases "chain s \<noteq> [] \<and> difficulty s = 0")
  case True
  with run have "chain s' = chain s @
      [\<lparr>index = index (last (chain s)) + 1, timestamp = now, transactions = txs,
        previousHash = hash (last (chain s)), hash = ''[object Object]'', nonce = 1\<rparr>]"
    by (auto simp: mineBlock_outcome)
  with inv True show ?thesis
    by (simp add: chain_invariant_append calculateHash_const)
next
  case False
  with run have "s' = s" by (auto simp: mineBlock_outcome split: if_splits)
  with inv show ?thesis by simp
qed

lemma constructor_0: "constructor 0 0 = \<lparr>difficulty = 4, pendingTransactions = [], chain = [genesis0]\<rparr>"
  by (simp add: constructor_def createGenesisBlock_def genesis0_def calculateHash_const)

text \<open>
  Claim C1. For every ledger whose chain satisfies the invariant (for every \<open>i > 0\<close>,
  \<open>chain[i].previousHash\<close> is \<open>chain[i-1].hash\<close>, and the hash recomputed from the stored
  fields of \<open>chain[i]\<close> is its stored hash), the ledger that a call of \<open>mineBlock\<close> leaves
  behind satisfies it again, whether the call returns a block or throws, and
  \<open>isChainValid()\<close> is true of it.
\<close>

theorem mineBlock_preserves_chain_invariant:
  assumes "chain_invariant (chain s)" and "mineBlock s now txs = Some (r, s')"
  shows "chain_invariant (chain s') \<and> isChainValid s'"
  using assms by (simp add: isChainValid_iff mineBlock_keeps_invariant)

theorem mineBlock_preserves_chain_invariant_witness:
  "chain_invariant (chain \<lparr>difficulty = 0, pendingTransactions = [], chain = [genesis0]\<rparr>)
   \<and> mineBlock \<lparr>difficulty = 0, pendingTransactions = [], chain = [genesis0]\<rparr> 7 [tx0] =
       Some (Inr \<lparr>index = 1, timestamp = 7, transactions = [tx0], previousHash = ''[object Object]'',
                  hash = ''[object Object]'', nonce = 1\<rparr>,
             \<lparr>difficulty = 0, pendingTransactions = [],
              chain = [genesis0, \<lparr>index = 1, timestamp = 7, transactions = [tx0],
                         previousHash = ''[object Object]'', hash = ''[object Object]'', nonce = 1\<rparr>]\<rparr>)
   \<and> chain_invariant [genesis0, \<lparr>index = 1, timestamp = 7, transactions = [tx0],
                         previousHash = ''[object Object]'', hash = ''[object Object]'', nonce = 1\<rparr>]
   \<and> isChainValid \<lparr>difficulty = 0, pendingTransactions = [],
              chain = [genesis0, \<lparr>index = 1, timestamp = 7, transactions = [tx0],
                         previousHash = ''[object Object]'', hash = ''[object Object]'', nonce = 1\<rparr>]\<rparr>"
proof -
  let ?s = "\<lparr>difficulty = 0, pendingTransactions = [], chain = [genesis0]\<rparr>"
  let ?b = "\<lparr>index = 1, timestamp = 7, transactions = [tx0], previousHash = ''[object Object]'',
                  hash = ''[object Object]'', nonce = 1\<rparr>"
  have inv: "chain_invariant (chain ?s)" by (simp add: chain_invariant_def)
  have run: "mineBlock ?s 7 [tx0] = Some (Inr ?b, ?s\<lparr>chain := [genesis0, ?b]\<rparr>)"
    by (simp add: mineBlock_outcome genesis0_def)
  from mineBlock_preserves_chain_invariant [OF inv run] inv run show ?thesis by simp
qed

text \<open>
  Claim C6 says that after \<open>mineBlock(txs)\<close> the chain is one block longer. On the
  ledger as constructed, with its difficulty of \<open>4\<close>, the call does not return: every
  candidate hash is \<open>[object Object]\<close>, whose first four characters are never \<open>0000\<close>.
\<close>

theorem mineBlock_never_returns_at_default_difficulty:
  "mineBlock (constructor 0 0) 1 [] = None"
  by (simp add: mineBlock_outcome constructor_0)

lemma mineBlock_returns:
  assumes "mineBlock s now txs = Some (Inr b, s')"
  shows "chain s \<noteq> [] \<and> difficulty s = 0
       \<and> b = \<lparr>index = index (last (chain s)) + 1, timestamp = now, transactions = txs,
               previousHash = hash (last (chain s)), hash = ''[object Object]'', nonce = 1\<rparr>
       \<and> s' = s\<lparr>chain := chain s @ [b]\<rparr>"
  using assms by (auto simp: mineBlock_outcome split: if_splits)

lemma mineBlock_ledger0:
  "mineBlock (ledger0\<lparr>pendingTransactions := [tx0_admitted]\<rparr>) 7 [tx0_admitted] =
     Some (Inr block1, ledger0\<lparr>pendingTransactions := [tx0_admitted], chain := [genesis0, block1]\<rparr>)"
  by (simp add: mineBlock_outcome ledger0_def block1_def genesis0_def)

text \<open>
  Claim C3 says that a pending transaction passed to \<open>mineBlock\<close> leaves the pool and
  gets the new block's index as its \<open>blockNumber\<close>. \<open>mineBlock\<close> neither reads nor writes
  the pool or the transactions: the transaction admitted at time \<open>5\<close>, mined at time
  \<open>7\<close> into block \<open>1\<close>, is still in the pool, and its \<open>blockNumber\<close> is still \<open>null\<close>.
\<close>

theorem mined_transaction_stays_pending:
  "addTransaction ledger0 5 5 tx0 = (Inr tx0_admitted, ledger0\<lparr>pendingTransactions := [tx0_admitted]\<rparr>)
   \<and> blockNumber tx0_admitted = None
   \<and> mineBlock (ledger0\<lparr>pendingTransactions := [tx0_admitted]\<rparr>) 7 [tx0_admitted] =
       Some (Inr block1, ledger0\<lparr>pendingTransactions := [tx0_admitted], chain := [genesis0, block1]\<rparr>)
   \<and> tx0_admitted \<in> set (pendingTransactions
        (ledger0\<lparr>pendingTransactions := [tx0_admitted], chain := [genesis0, block1]\<rparr>))
   \<and> map blockNumber (transactions block1) = [None] \<and> index block1 = 1"
  by (simp add: mineBlock_ledger0)
     (simp add: addTransaction_def Let_def isValidTransaction_def transactionExists_def falsy_def
        falsy_string_def verifySignature_def generateTransactionHash_const
        ledger0_def genesis0_def tx0_def tx0_admitted_def block1_def)

text \<open>
  Claim C3, amended. For every transaction in the pending pool, after a call of
  \<open>mineBlock\<close> that returns and whose argument includes that transaction, the
  transaction is in the transactions of the newly appended block, and the pending
  pool is what it was before the call, so the transaction is still in it.
\<close>

theorem mineBlock_leaves_pool_alone:
  assumes "mineBlock s now txs = Some (Inr b, s')"
    and "tx \<in> set (pendingTransactions s)" and "tx \<in> set txs"
  shows "chain s' = chain s @ [b] \<and> tx \<in> set (transactions b)
       \<and> pendingTransactions s' = pendingTransactions s \<and> tx \<in> set (pendingTransactions s')"
  using mineBlock_returns [OF assms(1)] assms(2,3) by auto

theorem mineBlock_leaves_pool_alone_witness:
  "mineBlock (ledger0\<lparr>pendingTransactions := [tx0_admitted]\<rparr>) 7 [tx0_admitted] =
     Some (Inr block1, ledger0\<lparr>pendingTransactions := [tx0_admitted], chain := [genesis0, block1]\<rparr>)
   \<and> tx0_admitted \<in> set (pendingTransactions (ledger0\<lparr>pendingTransactions := [tx0_admitted]\<rparr>))
   \<and> tx0_admitted \<in> set [tx0_admitted]
   \<and> chain (ledger0\<lparr>pendingTransactions := [tx0_admitted], chain := [genesis0, block1]\<rparr>)
       = chain (ledger0\<lparr>pendingTransactions := [tx0_admitted]\<rparr>) @ [block1]
   \<and> tx0_admitted \<in> set (transactions block1)
   \<and> pendingTransactions (ledger0\<lparr>pendingTransactions := [tx0_admitted], chain := [genesis0, block1]\<rparr>)
       = [tx0_admitted]"
proof -
  have a: "tx0_admitted \<in> set (pendingTransactions (ledger0\<lparr>pendingTransactions := [tx0_admitted]\<rparr>))"
    by simp
  have b: "tx0_admitted \<in> set [tx0_admitted]" by simp
  from mineBlock_leaves_pool_alone [OF mineBlock_ledger0 a b] mineBlock_ledger0 show ?thesis
    by simp
qed

section \<open>Submission\<close>

text \<open>
  Claim C4 says that of two submissions whose computed hashes coincide only the first
  is admitted. \<open>isValidTransaction\<close> looks up \<open>transaction.hash\<close> before
  \<open>addTransaction\<close> has computed it, so it looks up the \<open>undefined\<close> of an object that
  has no hash yet: the same transaction, submitted twice as two objects at the same
  time, is admitted twice, with the same hash.
\<close>

theorem duplicate_submission_is_admitted:
  "addTransaction (constructor 0 0) 5 5 tx0 =
     (Inr tx0_admitted, \<lparr>difficulty = 4, pendingTransactions = [tx0_admitted], chain = [genesis0]\<rparr>)
   \<and> generateTransactionHash tx0 5 = ''[object Object]''
   \<and> isValidTransaction \<lparr>difficulty = 4, pendingTransactions = [tx0_admitted], chain = [genesis0]\<rparr> tx0
   \<and> addTransaction \<lparr>difficulty = 4, pendingTransactions = [tx0_admitted], chain = [genesis0]\<rparr> 5 5 tx0 =
     (Inr tx0_admitted,
      \<lparr>difficulty = 4, pendingTransactions = [tx0_admitted, tx0_admitted], chain = [genesis0]\<rparr>)
   \<and> map tx_hash [tx0_admitted, tx0_admitted] = [Some ''[object Object]'', Some ''[object Object]'']"
  by (simp add: constructor_0)
     (simp add: addTransaction_def Let_def isValidTransaction_def transactionExists_def falsy_def
        falsy_string_def verifySignature_def generateTransactionHash_const
        genesis0_def tx0_def tx0_admitted_def)

section \<open>Hashing\<close>

text \<open>
  Claim C2 says that the hash engine returns the hexadecimal encoding of a SHA-256
  digest. \<open>calculateHash\<close> and \<open>generateTransactionHash\<close> return \<open>[object Object]\<close>,
  which is not a string of hexadecimal digits.
\<close>

theorem calculateHash_is_not_hex:
  "calculateHash 0 0 [] ''0'' 0 = ''[object Object]''
   \<and> generateTransactionHash tx0 0 = ''[object Object]''
   \<and> \<not> list_all is_hex (calculateHash 0 0 [] ''0'' 0)
   \<and> \<not> list_all is_hex (generateTransactionHash tx0 0)"
  by (simp add: calculateHash_const generateTransactionHash_const is_hex_def)

section \<open>Tampering\<close>

lemma valid_two: "isChainValid \<lparr>difficulty = 0, pendingTransactions = [], chain = [genesis0, block1]\<rparr>"
  by (simp add: isChainValid_iff chain_invariant_def linked_and_sealed_def calculateHash_const
      genesis0_def block1_def)

text \<open>
  Claim C5 says that after any change to any field of any block but the latest,
  \<open>isChainValid()\<close> is false. The loop of \<open>isChainValid\<close> starts at block \<open>1\<close> and reads
  nothing of the genesis block but its \<open>hash\<close>: with the timestamp and the transactions
  of the genesis block changed, the chain is still valid.
\<close>

theorem genesis_tampering_goes_undetected:
  "isChainValid \<lparr>difficulty = 0, pendingTransactions = [], chain = [genesis0, block1]\<rparr>
   \<and> [genesis0, block1] [0 := genesis0\<lparr>timestamp := 1, transactions := [tx0_admitted]\<rparr>]
       = [genesis0\<lparr>timestamp := 1, transactions := [tx0_admitted]\<rparr>, block1]
   \<and> genesis0\<lparr>timestamp := 1, transactions := [tx0_admitted]\<rparr> \<noteq> genesis0
   \<and> isChainValid \<lparr>difficulty = 0, pendingTransactions = [],
        chain = [genesis0\<lparr>timestamp := 1, transactions := [tx0_admitted]\<rparr>, block1]\<rparr>"
  by (simp add: isChainValid_iff chain_invariant_def linked_and_sealed_def calculateHash_const
      genesis0_def block1_def)

lemma tamper_hash:
  assumes v: "chain_invariant c" and i: "i + 1 < length c" and h: "h \<noteq> hash (c ! i)"
  shows "\<not> chain_invariant (c[i := (c ! i)\<lparr>hash := h\<rparr>])"
proof
  assume "chain_invariant (c[i := (c ! i)\<lparr>hash := h\<rparr>])"
  with i have "linked_and_sealed (c[i := (c ! i)\<lparr>hash := h\<rparr>]) (i + 1)"
    by (simp add: chain_invariant_iff)
  with i have "previousHash (c ! (i + 1)) = h" by (simp add: linked_and_sealed_def)
  moreover from v i have "linked_and_sealed c (i + 1)" by (simp add: chain_invariant_iff)
  then have "previousHash (c ! (i + 1)) = hash (c ! i)" by (simp add: linked_and_sealed_def)
  ultimately show False using h by simp
qed

lemma tamper_previousHash:
  assumes v: "chain_invariant c" and j: "0 < j" "j < length c" and p: "p \<noteq> previousHash (c ! j)"
  shows "\<not> chain_invariant (c[j := (c ! j)\<lparr>previousHash := p\<rparr>])"
proof
  assume "chain_invariant (c[j := (c ! j)\<lparr>previousHash := p\<rparr>])"
  with j have "linked_and_sealed (c[j := (c ! j)\<lparr>previousHash := p\<rparr>]) j"
    by (simp add: chain_invariant_iff)
  with j have "p = hash (c ! (j - 1))" by (simp add: linked_and_sealed_def)
  moreover from v j have "linked_and_sealed c j" by (simp add: chain_invariant_iff)
  then have "previousHash (c ! j) = hash (c ! (j - 1))" by (simp add: linked_and_sealed_def)
  ultimately show False using p by simp
qed

text \<open>
  Claim C5, amended. For every chain on which \<open>isChainValid()\<close> is true, giving the
  \<open>hash\<close> field of any block but the latest (the genesis block included) a different
  value, or the \<open>previousHash\<close> field of any block but the genesis block a different
  value, makes \<open>isChainValid()\<close> false.
\<close>

theorem hash_tampering_is_detected:
  assumes "isChainValid s"
  shows "(i + 1 < length (chain s) \<and> h \<noteq> hash (chain s ! i) \<longrightarrow>
            \<not> isChainValid (s\<lparr>chain := (chain s)[i := (chain s ! i)\<lparr>hash := h\<rparr>]\<rparr>))
       \<and> (0 < j \<and> j < length (chain s) \<and> p \<noteq> previousHash (chain s ! j) \<longrightarrow>
            \<not> isChainValid (s\<lparr>chain := (chain s)[j := (chain s ! j)\<lparr>previousHash := p\<rparr>]\<rparr>))"
  using assms by (simp add: isChainValid_iff tamper_hash tamper_previousHash)

theorem hash_tampering_is_detected_witness:
  "isChainValid \<lparr>difficulty = 0, pendingTransactions = [], chain = [genesis0, block1]\<rparr>
   \<and> \<not> isChainValid \<lparr>difficulty = 0, pendingTransactions = [],
          chain = [genesis0\<lparr>hash := ''00ab''\<rparr>, block1]\<rparr>
   \<and> \<not> isChainValid \<lparr>difficulty = 0, pendingTransactions = [],
          chain = [genesis0, block1\<lparr>previousHash := ''00ab''\<rparr>]\<rparr>"
proof -
  let ?s = "\<lparr>difficulty = 0, pendingTransactions = [], chain = [genesis0, block1]\<rparr>"
  have h: "''00ab'' \<noteq> hash (chain ?s ! 0)" by (simp add: genesis0_def)
  have p: "''00ab'' \<noteq> previousHash (chain ?s ! 1)" by (simp add: block1_def)
  from hash_tampering_is_detected [OF valid_two, of 0 "''00ab''" 1 "''00ab''"] h p valid_two
  show ?thesis by simp
qed

section \<open>Queries\<close>

lemma statusInBlocks_spec:
  "statusInBlocks all c h = map_option (confirmed_in all) (containing_block c h)"
proof (induction c)
  case Nil
  show ?case by (simp add: containing_block_def)
next
  case (Cons b c)
  show ?case
  proof (cases "find (\<lambda>tx. tx_hash tx = h) (transactions b)")
    case None
    then have "\<not> list_ex (\<lambda>tx. tx_hash tx = h) (transactions b)"
      by (simp add: find_None_iff list_ex_iff)
    with None Cons.IH show ?thesis by (simp add: containing_block_def)
  next
    case (Some tx)
    then have "list_ex (\<lambda>tx. tx_hash tx = h) (transactions b)"
      by (auto simp: find_Some_iff list_ex_iff)
    with Some show ?thesis by (simp add: containing_block_def confirmed_in_def)
  qed
qed

text \<open>
  Claim C8. For every ledger and every hash \<open>h\<close>, \<open>getTransactionStatus(h)\<close> looks in the
  sealed blocks first: when \<open>b\<close> is the first block holding a transaction with hash
  \<open>h\<close>, it returns the status \<open>confirmed\<close> with \<open>b\<close>'s index as block number, the chain
  length less \<open>b\<close>'s index as confirmations, and \<open>b\<close>'s timestamp and hash. When no
  block holds one and the pool does, it returns \<open>pending\<close> with no block number, zero
  confirmations, the pending transaction's timestamp and no hash. Otherwise it
  returns \<open>null\<close>.
\<close>

theorem getTransactionStatus_blocks_then_pool:
  "(containing_block (chain s) h = Some b \<longrightarrow>
      getTransactionStatus s h =
        Some \<lparr>status = ''confirmed'', st_blockNumber = Some (index b),
              confirmations = int (length (chain s)) - index b,
              st_timestamp = Some (timestamp b), st_hash = Some (hash b)\<rparr>)
   \<and> (containing_block (chain s) h = None
        \<and> find (\<lambda>tx. tx_hash tx = h) (pendingTransactions s) = Some tx \<longrightarrow>
      getTransactionStatus s h =
        Some \<lparr>status = ''pending'', st_blockNumber = None, confirmations = 0,
              st_timestamp = tx_timestamp tx, st_hash = None\<rparr>)
   \<and> (containing_block (chain s) h = None
        \<and> \<not> list_ex (\<lambda>tx. tx_hash tx = h) (pendingTransactions s) \<longrightarrow>
      getTransactionStatus s h = None)"
proof -
  have "\<not> list_ex (\<lambda>tx. tx_hash tx = h) (pendingTransactions s) \<Longrightarrow>
      find (\<lambda>tx. tx_hash tx = h) (pendingTransactions s) = None"
    by (simp add: find_None_iff list_ex_iff)
  then show ?thesis
    by (auto simp: getTransactionStatus_def statusInBlocks_spec confirmed_in_def)
qed

theorem getTransactionStatus_blocks_then_pool_witness:
  "containing_block [genesis0, block1] (Some ''[object Object]'') = Some block1
   \<and> getTransactionStatus \<lparr>difficulty = 0, pendingTransactions = [tx0_admitted],
        chain = [genesis0, block1]\<rparr> (Some ''[object Object]'') =
       Some \<lparr>status = ''confirmed'', st_blockNumber = Some 1, confirmations = 1,
             st_timestamp = Some 7, st_hash = Some ''[object Object]''\<rparr>
   \<and> containing_block [genesis0] (Some ''[object Object]'') = None
   \<and> getTransactionStatus \<lparr>difficulty = 0, pendingTransactions = [tx0_admitted],
        chain = [genesis0]\<rparr> (Some ''[object Object]'') =
       Some \<lparr>status = ''pending'', st_blockNumber = None, confirmations = 0,
             st_timestamp = Some 5, st_hash = None\<rparr>
   \<and> getTransactionStatus \<lparr>difficulty = 0, pendingTransactions = [tx0_admitted],
        chain = [genesis0]\<rparr> (Some ''00ab'') = None"
proof -
  let ?h = "Some ''[object Object]''"
  let ?s2 = "\<lparr>difficulty = 0, pendingTransactions = [tx0_admitted], chain = [genesis0, block1]\<rparr>"
  let ?s1 = "\<lparr>difficulty = 0, pendingTransactions = [tx0_admitted], chain = [genesis0]\<rparr>"
  have b: "containing_block (chain ?s2) ?h = Some block1"
    by (simp add: containing_block_def genesis0_def block1_def tx0_admitted_def)
  have n: "containing_block (chain ?s1) ?h = None"
    by (simp add: containing_block_def genesis0_def)
  have p: "find (\<lambda>tx. tx_hash tx = ?h) (pendingTransactions ?s1) = Some tx0_admitted"
    by (simp add: tx0_admitted_def)
  have n': "containing_block (chain ?s1) (Some ''00ab'') = None"
    by (simp add: containing_block_def genesis0_def)
  have q: "\<not> list_ex (\<lambda>tx. tx_hash tx = Some ''00ab'') (pendingTransactions ?s1)"
    by (simp add: tx0_admitted_def)
  from getTransactionStatus_blocks_then_pool [of ?s2 ?h block1 tx0_admitted]
       getTransactionStatus_blocks_then_pool [of ?s1 ?h block1 tx0_admitted]
       getTransactionStatus_blocks_then_pool [of ?s1 "Some ''00ab''" block1 tx0_admitted]
       b n p n' q
  show ?thesis by (simp add: block1_def tx0_admitted_def)
qed

section \<open>Import\<close>

lemma linkageFrom_unfold:
  "linkageFrom c i =
     (if i < length c then (if broken_link c i then Some CorruptedChain else linkageFrom c (i + 1))
      else None)"
  by (subst linkageFrom.simps) (simp add: broken_link_def Let_def)

lemma linkageFrom_error: "linkageFrom c i = Some e \<Longrightarrow> e = CorruptedChain"
proof (induction "length c - i" arbitrary: i)
  case 0
  then show ?case by (subst (asm) linkageFrom_unfold) simp
next
  case (Suc k)
  then have k: "k = length c - (i + 1)" by simp
  from Suc.prems Suc.hyps(1) [OF k] show ?case
    by (subst (asm) linkageFrom_unfold) (simp split: if_splits)
qed

lemma linkageFrom_None_iff:
  "linkageFrom c i = None \<longleftrightarrow> (\<forall>j. i \<le> j \<and> j < length c \<longrightarrow> \<not> broken_link c j)"
proof (induction "length c - i" arbitrary: i)
  case 0
  then show ?case by (subst linkageFrom_unfold) auto
next
  case (Suc k)
  then have lt: "i < length c" and k: "k = length c - (i + 1)" by simp_all
  note step = Suc.hyps(1) [OF k]
  show ?case
  proof (cases "broken_link c i")
    case True
    with lt show ?thesis by (subst linkageFrom_unfold) auto
  next
    case False
    with lt have "linkageFrom c i = linkageFrom c (i + 1)" by (subst linkageFrom_unfold) simp
    moreover have "(\<forall>j. i + 1 \<le> j \<and> j < length c \<longrightarrow> \<not> broken_link c j)
        \<longleftrightarrow> (\<forall>j. i \<le> j \<and> j < length c \<longrightarrow> \<not> broken_link c j)"
    proof
      assume a: "\<forall>j. i + 1 \<le> j \<and> j < length c \<longrightarrow> \<not> broken_link c j"
      show "\<forall>j. i \<le> j \<and> j < length c \<longrightarrow> \<not> broken_link c j"
      proof (intro allI impI)
        fix j assume j: "i \<le> j \<and> j < length c"
        show "\<not> broken_link c j"
        proof (cases "j = i")
          case True with False show ?thesis by simp
        next
          case False with j have "i + 1 \<le> j \<and> j < length c" by simp
          with a show ?thesis by blast
        qed
      qed
    next
      assume "\<forall>j. i \<le> j \<and> j < length c \<longrightarrow> \<not> broken_link c j"
      then show "\<forall>j. i + 1 \<le> j \<and> j < length c \<longrightarrow> \<not> broken_link c j" by simp
    qed
    ultimately show ?thesis using step by simp
  qed
qed

lemma linkageFrom_1: "linkageFrom c 1 = (if some_broken_link c then Some CorruptedChain else None)"
proof (cases "linkageFrom c 1")
  case None
  then show ?thesis
    by (auto simp: linkageFrom_None_iff some_broken_link_def list_ex_iff)
next
  case (Some e)
  then have "e = CorruptedChain" by (rule linkageFrom_error)
  moreover from Some have "linkageFrom c 1 \<noteq> None" by simp
  then have "some_broken_link c"
    unfolding linkageFrom_None_iff some_broken_link_def list_ex_iff by auto
  ultimately show ?thesis using Some by simp
qed

lemma importBlockchain_outcome:
  "importBlockchain s d =
     (case snap_chain d of
        Array c \<Rightarrow>
          if some_broken_link c then (Inl CorruptedChain, s)
          else (Inr True,
                \<lparr>difficulty = (case snap_difficulty d of
                                 Some x \<Rightarrow> if x \<noteq> 0 then x else difficulty s
                               | None \<Rightarrow> difficulty s),
                 pendingTransactions = (case snap_pendingTransactions d of Some p \<Rightarrow> p | None \<Rightarrow> []),
                 chain = c\<rparr>)
      | _ \<Rightarrow> (Inl InvalidFormat, s))"
  unfolding importBlockchain_def linkageFrom_1
  by (cases "snap_chain d") simp_all

text \<open>
  Claim C7. \<open>importBlockchain(snapshot)\<close> throws the invalid-format error exactly when
  the snapshot's \<open>chain\<close> is absent or is not an array. When it is an array, the call
  throws the corrupted-chain error exactly when some block after the first does not
  carry the hash of the block before it; block hashes are not recomputed. Otherwise it
  returns \<open>true\<close> and the ledger's chain and pool are the snapshot's (the empty pool
  when the snapshot has none), its difficulty the snapshot's unless that is absent or
  \<open>0\<close>.
\<close>

theorem importBlockchain_failures_and_success:
  "(fst (importBlockchain s d) = Inl InvalidFormat \<longleftrightarrow>
      snap_chain d = Absent \<or> (\<exists>v. snap_chain d = NotArray v))
   \<and> (snap_chain d = Array c \<longrightarrow>
        (fst (importBlockchain s d) = Inl CorruptedChain \<longleftrightarrow>
           (\<exists>i. 0 < i \<and> i < length c \<and> previousHash (c ! i) \<noteq> hash (c ! (i - 1))))
        \<and> ((\<forall>i. 0 < i \<and> i < length c \<longrightarrow> previousHash (c ! i) = hash (c ! (i - 1))) \<longrightarrow>
             importBlockchain s d =
               (Inr True,
                \<lparr>difficulty = (case snap_difficulty d of
                                 Some x \<Rightarrow> if x \<noteq> 0 then x else difficulty s
                               | None \<Rightarrow> difficulty s),
                 pendingTransactions =
                   (case snap_pendingTransactions d of Some p \<Rightarrow> p | None \<Rightarrow> []),
                 chain = c\<rparr>)))"
proof -
  have sb: "some_broken_link c \<longleftrightarrow>
      (\<exists>i. 0 < i \<and> i < length c \<and> previousHash (c ! i) \<noteq> hash (c ! (i - 1)))"
    unfolding some_broken_link_def list_ex_iff broken_link_def
    by (auto simp: Suc_le_eq)
  show ?thesis
    unfolding sb [symmetric] importBlockchain_outcome
    by (cases "snap_chain d") (auto simp: sb)
qed

theorem importBlockchain_failures_and_success_witness:
  "snap_chain snapshot0 = Array [genesis0, unsealed1]
   \<and> importBlockchain (constructor 0 0) snapshot0 =
       (Inr True, \<lparr>difficulty = 2, pendingTransactions = [tx0_admitted],
                   chain = [genesis0, unsealed1]\<rparr>)
   \<and> \<not> isChainValid \<lparr>difficulty = 2, pendingTransactions = [tx0_admitted],
                       chain = [genesis0, unsealed1]\<rparr>
   \<and> fst (importBlockchain (constructor 0 0)
            (snapshot0\<lparr>snap_chain := Array [genesis0, unsealed1\<lparr>previousHash := ''0''\<rparr>]\<rparr>))
       = Inl CorruptedChain
   \<and> fst (importBlockchain (constructor 0 0) (snapshot0\<lparr>snap_chain := NotArray (PStr ''chain'')\<rparr>))
       = Inl InvalidFormat"
proof -
  have c: "snap_chain snapshot0 = Array [genesis0, unsealed1]" by (simp add: snapshot0_def)
  have linked: "\<forall>i. 0 < i \<and> i < length [genesis0, unsealed1] \<longrightarrow>
      previousHash ([genesis0, unsealed1] ! i) = hash ([genesis0, unsealed1] ! (i - 1))"
    by (auto simp: less_Suc_eq genesis0_def unsealed1_def block1_def)
  have ok: "importBlockchain (constructor 0 0) snapshot0 =
       (Inr True, \<lparr>difficulty = 2, pendingTransactions = [tx0_admitted],
                   chain = [genesis0, unsealed1]\<rparr>)"
    using importBlockchain_failures_and_success
            [of "constructor 0 0" snapshot0 "[genesis0, unsealed1]"] c linked
    by (simp add: snapshot0_def)
  have c': "snap_chain (snapshot0\<lparr>snap_chain := Array [genesis0, unsealed1\<lparr>previousHash := ''0''\<rparr>]\<rparr>)
      = Array [genesis0, unsealed1\<lparr>previousHash := ''0''\<rparr>]" by simp
  have broken: "\<exists>i. 0 < i \<and> i < length [genesis0, unsealed1\<lparr>previousHash := ''0''\<rparr>]
      \<and> previousHash ([genesis0, unsealed1\<lparr>previousHash := ''0''\<rparr>] ! i)
          \<noteq> hash ([genesis0, unsealed1\<lparr>previousHash := ''0''\<rparr>] ! (i - 1))"
    by (rule exI [of _ 1]) (simp add: genesis0_def)
  have bad: "fst (importBlockchain (constructor 0 0)
            (snapshot0\<lparr>snap_chain := Array [genesis0, unsealed1\<lparr>previousHash := ''0''\<rparr>]\<rparr>))
       = Inl CorruptedChain"
    using importBlockchain_failures_and_success
            [of "constructor 0 0" "snapshot0\<lparr>snap_chain := Array [genesis0, unsealed1\<lparr>previousHash := ''0''\<rparr>]\<rparr>"
                "[genesis0, unsealed1\<lparr>previousHash := ''0''\<rparr>]"] c' broken
    by blast
  have fmt: "fst (importBlockchain (constructor 0 0) (snapshot0\<lparr>snap_chain := NotArray (PStr ''chain'')\<rparr>))
       = Inl InvalidFormat"
    using importBlockchain_failures_and_success
            [of "constructor 0 0" "snapshot0\<lparr>snap_chain := NotArray (PStr ''chain'')\<rparr>" "[]"]
    by simp
  have invalid: "\<not> isChainValid \<lparr>difficulty = 2, pendingTransactions = [tx0_admitted],
                       chain = [genesis0, unsealed1]\<rparr>"
    by (simp add: isChainValid_iff chain_invariant_def linked_and_sealed_def calculateHash_const
        unsealed1_def block1_def)
  from c ok invalid bad fmt show ?thesis by simp
qed

text \<open>
  Claim C10. Whenever \<open>importBlockchain\<close> throws, the chain, the pending pool and the
  difficulty of the ledger are what they were before the call; and what it throws is
  the invalid-format or the corrupted-chain error.
\<close>

theorem importBlockchain_throw_keeps_ledger:
  assumes "importBlockchain s d = (Inl e, s')"
  shows "s' = s \<and> (e = InvalidFormat \<or> e = CorruptedChain)"
  using assms unfolding importBlockchain_outcome
  by (cases "snap_chain d") (auto split: if_splits)

theorem importBlockchain_throw_keeps_ledger_witness:
  "importBlockchain (constructor 0 0)
      (snapshot0\<lparr>snap_chain := Array [genesis0, unsealed1\<lparr>previousHash := ''0''\<rparr>]\<rparr>)
     = (Inl CorruptedChain, constructor 0 0)
   \<and> importBlockchain (constructor 0 0) (snapshot0\<lparr>snap_chain := Absent\<rparr>)
     = (Inl InvalidFormat, constructor 0 0)"
proof -
  have a: "importBlockchain (constructor 0 0)
      (snapshot0\<lparr>snap_chain := Array [genesis0, unsealed1\<lparr>previousHash := ''0''\<rparr>]\<rparr>)
     = (Inl CorruptedChain, constructor 0 0)"
    by (simp add: importBlockchain_outcome some_broken_link_def broken_link_def genesis0_def)
  have b: "importBlockchain (constructor 0 0) (snapshot0\<lparr>snap_chain := Absent\<rparr>)
     = (Inl InvalidFormat, constructor 0 0)"
    by (simp add: importBlockchain_outcome)
  from importBlockchain_throw_keeps_ledger [OF a] importBlockchain_throw_keeps_ledger [OF b] a b
  show ?thesis by simp
qed

text \<open>
  Construction leaves a chain of one block, and submission, mining and cleanup never
  shorten the chain; an import leaves the snapshot's chain.
\<close>

lemma chain_after_each_operation:
  "chain (constructor now1 now2) \<noteq> []"
  "chain (snd (addTransaction s nowH nowT tx)) = chain s"
  "mineBlock s now txs = Some (r, s') \<Longrightarrow> chain s \<noteq> [] \<Longrightarrow> chain s' \<noteq> []"
  "chain (snd (cleanupOldPendingTransactions s now maxAge)) = chain s"
  "importBlockchain s d = (Inr ok, s') \<Longrightarrow> snap_chain d = Array (chain s')"
  "importBlockchain s d = (Inl e, s') \<Longrightarrow> chain s' = chain s"
proof -
  show "chain (constructor now1 now2) \<noteq> []"
    by (simp add: constructor_def createGenesisBlock_def)
  show "chain (snd (addTransaction s nowH nowT tx)) = chain s"
    by (simp add: addTransaction_def Let_def)
  show "mineBlock s now txs = Some (r, s') \<Longrightarrow> chain s \<noteq> [] \<Longrightarrow> chain s' \<noteq> []"
    by (auto simp: mineBlock_outcome split: if_splits)
  show "chain (snd (cleanupOldPendingTransactions s now maxAge)) = chain s"
    by (simp add: cleanupOldPendingTransactions_def Let_def)
  show "importBlockchain s d = (Inr ok, s') \<Longrightarrow> snap_chain d = Array (chain s')"
    unfolding importBlockchain_outcome
    by (cases "snap_chain d") (auto split: if_splits)
  show "importBlockchain s d = (Inl e, s') \<Longrightarrow> chain s' = chain s"
    unfolding importBlockchain_outcome
    by (cases "snap_chain d") (auto split: if_splits)
qed

text \<open>
  Claim C9 says that the chain is never empty, whatever sequence of operations the
  ledger has gone through, so that \<open>getLatestBlock()\<close> always returns a block.
  \<open>importBlockchain\<close> accepts a snapshot whose chain is the empty array: on the ledger
  as constructed it returns \<open>true\<close> and leaves an empty chain, on which
  \<open>getLatestBlock()\<close> is \<open>undefined\<close> and \<open>mineBlock\<close> throws a \<open>TypeError\<close>.
\<close>

theorem importing_an_empty_chain_empties_the_ledger:
  "importBlockchain (constructor 0 0) empty_snapshot
     = (Inr True, \<lparr>difficulty = 4, pendingTransactions = [], chain = []\<rparr>)
   \<and> getLatestBlock \<lparr>difficulty = 4, pendingTransactions = [], chain = []\<rparr> = None
   \<and> mineBlock \<lparr>difficulty = 4, pendingTransactions = [], chain = []\<rparr> 1 [] =
       Some (Inl TypeError, \<lparr>difficulty = 4, pendingTransactions = [], chain = []\<rparr>)"
  by (simp add: importBlockchain_outcome some_broken_link_def constructor_0 getLatestBlock_def
      mineBlock_outcome empty_snapshot_def)

theorem importing_an_empty_chain_empties_the_ledger_witness:
  "chain (snd (importBlockchain (constructor 0 0) empty_snapshot)) = []
   \<and> getLatestBlock (snd (importBlockchain (constructor 0 0) empty_snapshot)) = None"
  using importing_an_empty_chain_empties_the_ledger by simp

end
